theory Spec2Isabelle
  imports Main "HOL-Library.Word" "HOL-Library.Sublist"
begin

section \<open>The beacon wire format\<close>

text \<open>
  The module \<^verbatim>\<open>capsat_watcher.py\<close> reads binary beacon files, unpacks them with
  \<^verbatim>\<open>struct.unpack\<close> and posts one record per field to a Django server.

  Bytes are 8-bit words. The four \<^verbatim>\<open>struct\<close> format strings used by the module are a
  datatype: \<^verbatim>\<open>'<H'\<close>, \<^verbatim>\<open>'<B'\<close>, \<^verbatim>\<open>'<I'\<close> and \<^verbatim>\<open>'<f'\<close>.
\<close>

type_synonym byte = "8 word"

datatype fmt = LE_H | LE_B | LE_I | LE_f

text \<open>An entry of \<^verbatim>\<open>BEACON_FORMAT\<close>: (RecordSource name, data type, data size).\<close>

type_synonym field = "string \<times> fmt \<times> nat"

text \<open>
  \<^verbatim>\<open>BEACON_FORMAT = { ('sync', '<H', 2), ... }\<close> is written with braces: it is a Python
  \<^verbatim>\<open>set\<close> of tuples, not a list.
\<close>

definition BEACON_FORMAT :: "field set" where
  "BEACON_FORMAT = {
    (''sync'', LE_H, 2),
    (''host_id'', LE_B, 1),
    (''system_time'', LE_I, 4),
    (''custom_data0'', LE_B, 1),
    (''custom_data1'', LE_B, 1),
    (''custom_data2'', LE_B, 1),
    (''custom_data3'', LE_B, 1),
    (''quaternions0'', LE_f, 4),
    (''quaternions1'', LE_f, 4),
    (''quaternions2'', LE_f, 4),
    (''quaternions3'', LE_f, 4),
    (''rates0'', LE_f, 4),
    (''rates1'', LE_f, 4),
    (''rates2'', LE_f, 4),
    (''illumination_state'', LE_H, 2),
    (''algorithm'', LE_B, 1),
    (''battery_voltage0'', LE_f, 4),
    (''battery_voltage1'', LE_f, 4),
    (''battery_voltage2'', LE_f, 4),
    (''battery_voltage3'', LE_f, 4),
    (''battery_temperature0'', LE_f, 4),
    (''battery_temperature1'', LE_f, 4),
    (''battery_temperature2'', LE_f, 4),
    (''battery_temperature3'', LE_f, 4)}"

text \<open>
  The order in which the entries are written in the source text. The set object does not
  keep it; it is what the specification calls the declaration order.
\<close>

definition declaration_order :: "field list" where
  "declaration_order = [
    (''sync'', LE_H, 2),
    (''host_id'', LE_B, 1),
    (''system_time'', LE_I, 4),
    (''custom_data0'', LE_B, 1),
    (''custom_data1'', LE_B, 1),
    (''custom_data2'', LE_B, 1),
    (''custom_data3'', LE_B, 1),
    (''quaternions0'', LE_f, 4),
    (''quaternions1'', LE_f, 4),
    (''quaternions2'', LE_f, 4),
    (''quaternions3'', LE_f, 4),
    (''rates0'', LE_f, 4),
    (''rates1'', LE_f, 4),
    (''rates2'', LE_f, 4),
    (''illumination_state'', LE_H, 2),
    (''algorithm'', LE_B, 1),
    (''battery_voltage0'', LE_f, 4),
    (''battery_voltage1'', LE_f, 4),
    (''battery_voltage2'', LE_f, 4),
    (''battery_voltage3'', LE_f, 4),
    (''battery_temperature0'', LE_f, 4),
    (''battery_temperature1'', LE_f, 4),
    (''battery_temperature2'', LE_f, 4),
    (''battery_temperature3'', LE_f, 4)]"

text \<open>
  Iterating a Python \<^verbatim>\<open>set\<close> yields every element once, in an order fixed by the
  elements' hashes. The elements here are tuples holding \<^verbatim>\<open>str\<close> objects, whose hashes
  are salted anew for each interpreter process, so the order is an unknown of the
  process. The set is built once and never changed, so within a process every iteration
  yields the same order: the functions that iterate \<^verbatim>\<open>BEACON_FORMAT\<close> take it as their
  first argument \<open>order\<close>, and \<open>set_iteration order\<close> says that it enumerates the set.
\<close>

definition set_iteration :: "field list \<Rightarrow> bool" where
  "set_iteration order \<longleftrightarrow> distinct order \<and> set order = BEACON_FORMAT"

definition BEACON_FILE_PREFIX :: string where
  "BEACON_FILE_PREFIX = ''beacon_''"

section \<open>Python values, errors and the outside world\<close>

text \<open>
  What \<^verbatim>\<open>unpack\<close> produces: a Python \<^verbatim>\<open>int\<close>, or the \<^verbatim>\<open>float\<close> denoted by an IEEE-754
  binary32 bit pattern (kept as the pattern). A Python tuple is a list of values.
\<close>

datatype py_value = PyInt int | PyFloat32 "32 word"

type_synonym py_tuple = "py_value list"

text \<open>A \<^verbatim>\<open>dict\<close> keeps its keys in insertion order; assigning to a present key keeps its place.\<close>

type_synonym dict = "(string \<times> py_tuple) list"

fun setitem :: "dict \<Rightarrow> string \<Rightarrow> py_tuple \<Rightarrow> dict" where
  "setitem [] k v = [(k, v)]"
| "setitem ((k', v') # d) k v = (if k' = k then (k, v) # d else (k', v') # setitem d k v)"

text \<open>
  The exceptions that the module's calls can raise; none of them is caught anywhere. A
  function of the module returns its outcome, an exception or a value, together with the
  world as it has become: what was written before an exception stays written.
\<close>

datatype error =
    ValueError            \<comment> \<open>\<^verbatim>\<open>strptime\<close>: the name does not match, or is no calendar date\<close>
  | FileNotFoundError     \<comment> \<open>\<^verbatim>\<open>open\<close>, \<^verbatim>\<open>rename\<close>\<close>
  | StructError           \<comment> \<open>\<^verbatim>\<open>struct.error\<close>: the buffer has not the size of the format\<close>
  | RequestException      \<comment> \<open>\<^verbatim>\<open>requests\<close>: the connection failed\<close>
  | HTTPError             \<comment> \<open>\<^verbatim>\<open>raise_for_status\<close>\<close>
  | BodyError             \<comment> \<open>\<^verbatim>\<open>json.loads\<close>, or a missing key of the decoded body\<close>
  | Exception             \<comment> \<open>\<^verbatim>\<open>raise Exception\<close> of \<^verbatim>\<open>check_database\<close>\<close>

datatype path = Path (parent: string) (name: string)

datatype tz = UTC

record datetime =
  year :: nat
  month :: nat
  day :: nat
  hour :: nat
  minute :: nat
  second :: nat
  tzinfo :: "tz option"

text \<open>One call of \<^verbatim>\<open>requests.post\<close>: the URL, the Authorization header and the form data.\<close>

record request =
  url :: string
  authorization :: string
  created_at :: string
  val :: py_tuple
  source :: string

text \<open>
  What a call of \<^verbatim>\<open>requests.post\<close> comes back with: a response with its \<^verbatim>\<open>ok\<close> flag and
  its \<^verbatim>\<open>content\<close>, or an exception of the transport.
\<close>

datatype post_outcome = Response bool "byte list" | Transport_Failure

datatype log_entry =
    Info_Detected path
  | Info_Uploading
  | Error_MOC
  | Info_Processed string
  | Error_Incorrect_Size nat
  | Info_Checking
  | Error_Missing
  | Error_Expected "string list"
  | Error_Got "string list"

text \<open>
  The state outside the process that the functions read and write: the files by path,
  the file \<^verbatim>\<open>error.html\<close> of the working directory, the calls of \<^verbatim>\<open>requests.post\<close> made so
  far, and the log.
\<close>

record world =
  files :: "path \<Rightarrow> byte list option"
  error_html :: "byte list option"
  posts :: "request list"
  logged :: "log_entry list"

definition log_add :: "world \<Rightarrow> log_entry \<Rightarrow> world" where
  "log_add w e = w\<lparr>logged := logged w @ [e]\<rparr>"

section \<open>\<^verbatim>\<open>datetime.strptime\<close> and \<^verbatim>\<open>isoformat\<close>\<close>

text \<open>
  The standard library compiles the format \<^verbatim>\<open>beacon_%Y-%m-%d_%H:%M:%S\<close> into the regular
  expression
  \<^verbatim>\<open>beacon_(\d\d\d\d)-(1[0-2]|0[1-9]|[1-9])-(3[0-1]|[1-2]\d|0[1-9]|[1-9]| [1-9])_\<close>
  \<^verbatim>\<open>(2[0-3]|[0-1]\d|\d):([0-5]\d|\d):(6[0-1]|[0-5]\d|\d)\<close>,
  matched at the start of the string and ignoring case; the leading zero of every field
  but the year is optional. A match that leaves characters over, and values that are no
  date and time, raise \<^verbatim>\<open>ValueError\<close>. Each piece of the expression is a function from the
  remaining input to the list of its matches in the order a backtracking matcher tries
  them; characters are ASCII.
\<close>

definition digit :: "char \<Rightarrow> bool" where
  "digit c \<longleftrightarrow> 48 \<le> (of_char c :: nat) \<and> (of_char c :: nat) \<le> 57"

definition dval :: "char \<Rightarrow> nat" where
  "dval c = of_char c - 48"

definition lower :: "char \<Rightarrow> char" where
  "lower c = (if 65 \<le> (of_char c :: nat) \<and> (of_char c :: nat) \<le> 90
              then char_of ((of_char c :: nat) + 32) else c)"

fun lit :: "string \<Rightarrow> string \<Rightarrow> string list" where
  "lit [] s = [s]"
| "lit (p # ps) [] = []"
| "lit (p # ps) (c # cs) = (if lower c = lower p then lit ps cs else [])"

definition one :: "(nat \<Rightarrow> bool) \<Rightarrow> string \<Rightarrow> (nat \<times> string) list" where
  "one P s = (case s of
                a # r \<Rightarrow> if digit a \<and> P (dval a) then [(dval a, r)] else []
              | [] \<Rightarrow> [])"

definition two :: "(nat \<Rightarrow> nat \<Rightarrow> bool) \<Rightarrow> string \<Rightarrow> (nat \<times> string) list" where
  "two P s = (case s of
                a # b # r \<Rightarrow> if digit a \<and> digit b \<and> P (dval a) (dval b)
                             then [(10 * dval a + dval b, r)] else []
              | _ \<Rightarrow> [])"

definition re_Y :: "string \<Rightarrow> (nat \<times> string) list" where
  "re_Y s = (case s of
               a # b # c # d # r \<Rightarrow>
                 if digit a \<and> digit b \<and> digit c \<and> digit d
                 then [(1000 * dval a + 100 * dval b + 10 * dval c + dval d, r)] else []
             | _ \<Rightarrow> [])"

definition re_m :: "string \<Rightarrow> (nat \<times> string) list" where
  "re_m s = two (\<lambda>a b. a = 1 \<and> b \<le> 2) s @ two (\<lambda>a b. a = 0 \<and> 1 \<le> b) s @ one (\<lambda>a. 1 \<le> a) s"

definition re_d :: "string \<Rightarrow> (nat \<times> string) list" where
  "re_d s = two (\<lambda>a b. a = 3 \<and> b \<le> 1) s @ two (\<lambda>a b. 1 \<le> a \<and> a \<le> 2) s
          @ two (\<lambda>a b. a = 0 \<and> 1 \<le> b) s @ one (\<lambda>a. 1 \<le> a) s
          @ concat (map (one (\<lambda>a. 1 \<le> a)) (lit '' '' s))"

definition re_H :: "string \<Rightarrow> (nat \<times> string) list" where
  "re_H s = two (\<lambda>a b. a = 2 \<and> b \<le> 3) s @ two (\<lambda>a b. a \<le> 1) s @ one (\<lambda>a. True) s"

definition re_M :: "string \<Rightarrow> (nat \<times> string) list" where
  "re_M s = two (\<lambda>a b. a \<le> 5) s @ one (\<lambda>a. True) s"

definition re_S :: "string \<Rightarrow> (nat \<times> string) list" where
  "re_S s = two (\<lambda>a b. a = 6 \<and> b \<le> 1) s @ two (\<lambda>a b. a \<le> 5) s @ one (\<lambda>a. True) s"

text \<open>The whole expression: all matches, the one \<^verbatim>\<open>re.match\<close> finds first.\<close>

definition format_regex :: "string \<Rightarrow> ((nat \<times> nat \<times> nat \<times> nat \<times> nat \<times> nat) \<times> string) list" where
  "format_regex s =
     [((Y, m, d, H, M, S), r11).
        r0 \<leftarrow> lit ''beacon_'' s, (Y, r1) \<leftarrow> re_Y r0,
        r2 \<leftarrow> lit ''-'' r1, (m, r3) \<leftarrow> re_m r2,
        r4 \<leftarrow> lit ''-'' r3, (d, r5) \<leftarrow> re_d r4,
        r6 \<leftarrow> lit ''_'' r5, (H, r7) \<leftarrow> re_H r6,
        r8 \<leftarrow> lit '':'' r7, (M, r9) \<leftarrow> re_M r8,
        r10 \<leftarrow> lit '':'' r9, (S, r11) \<leftarrow> re_S r10]"

definition is_leap :: "nat \<Rightarrow> bool" where
  "is_leap y \<longleftrightarrow> y mod 4 = 0 \<and> (y mod 100 \<noteq> 0 \<or> y mod 400 = 0)"

definition days_in_month :: "nat \<Rightarrow> nat \<Rightarrow> nat" where
  "days_in_month y m =
     (if m = 2 then (if is_leap y then 29 else 28)
      else if m = 4 \<or> m = 6 \<or> m = 9 \<or> m = 11 then 30 else 31)"

definition strptime :: "string \<Rightarrow> error + datetime" where
  "strptime s =
     (case format_regex s of
        [] \<Rightarrow> Inl ValueError
      | ((Y, m, d, H, M, S), rest) # _ \<Rightarrow>
          if rest \<noteq> [] then Inl ValueError
          else if Y < 1 \<or> days_in_month Y m < d \<or> 59 < S then Inl ValueError
          else Inr \<lparr>year = Y, month = m, day = d, hour = H, minute = M, second = S,
                    tzinfo = None\<rparr>)"

definition digit_char :: "nat \<Rightarrow> char" where
  "digit_char n = char_of (48 + n mod 10)"

definition pad2 :: "nat \<Rightarrow> string" where
  "pad2 n = [digit_char (n div 10), digit_char n]"

definition pad4 :: "nat \<Rightarrow> string" where
  "pad4 n = [digit_char (n div 1000), digit_char (n div 100), digit_char (n div 10), digit_char n]"

definition isoformat :: "datetime \<Rightarrow> string" where
  "isoformat d =
     pad4 (year d) @ ''-'' @ pad2 (month d) @ ''-'' @ pad2 (day d) @ ''T''
     @ pad2 (hour d) @ '':'' @ pad2 (minute d) @ '':'' @ pad2 (second d)
     @ (case tzinfo d of None \<Rightarrow> [] | Some UTC \<Rightarrow> ''+00:00'')"

section \<open>\<^verbatim>\<open>parse_beacon\<close>\<close>

definition calcsize :: "fmt \<Rightarrow> nat" where
  "calcsize t = (case t of LE_H \<Rightarrow> 2 | LE_B \<Rightarrow> 1 | LE_I \<Rightarrow> 4 | LE_f \<Rightarrow> 4)"

text \<open>The little-endian number held by a byte string.\<close>

fun le_int :: "byte list \<Rightarrow> int" where
  "le_int [] = 0"
| "le_int (b # bs) = uint b + 256 * le_int bs"

text \<open>
  \<^verbatim>\<open>struct.unpack\<close> with one of the four formats: a tuple of one value, or \<^verbatim>\<open>struct.error\<close>
  when the buffer has not exactly the size of the format.
\<close>

definition unpack :: "fmt \<Rightarrow> byte list \<Rightarrow> error + py_tuple" where
  "unpack t bs =
     (if length bs \<noteq> calcsize t then Inl StructError
      else Inr [case t of LE_f \<Rightarrow> PyFloat32 (word_of_int (le_int bs)) | _ \<Rightarrow> PyInt (le_int bs)])"

text \<open>
  The loop \<^verbatim>\<open>for rs, t, s in BEACON_FORMAT: data[rs] = unpack(t, f.read(s))\<close>, over the
  entries in the order the set yields them. The second argument is what is left of the
  file after the read cursor: \<^verbatim>\<open>f.read(s)\<close> returns at most \<open>s\<close> bytes and advances.
\<close>

fun unpack_loop :: "field list \<Rightarrow> byte list \<Rightarrow> dict \<Rightarrow> error + dict" where
  "unpack_loop [] buf data = Inr data"
| "unpack_loop ((rs, t, s) # fs) buf data =
     (case unpack t (take s buf) of
        Inl e \<Rightarrow> Inl e
      | Inr v \<Rightarrow> unpack_loop fs (drop s buf) (setitem data rs v))"

text \<open>
  \<^verbatim>\<open>f.peek()\<close> on a freshly opened file returns what one read of the buffer size brings,
  without moving the cursor. The buffer size is that of \<^verbatim>\<open>io.DEFAULT_BUFFER_SIZE\<close>.
\<close>

definition buffer_size :: nat where
  "buffer_size = 8192"

definition peek :: "byte list \<Rightarrow> byte list" where
  "peek contents = take buffer_size contents"

definition parse_beacon :: "field list \<Rightarrow> path \<Rightarrow> world \<Rightarrow> (error + datetime \<times> dict) \<times> world" where
  "parse_beacon order filename w =
     (case strptime (name filename) of
        Inl e \<Rightarrow> (Inl e, w)
      | Inr date0 \<Rightarrow>
          let date = date0\<lparr>tzinfo := Some UTC\<rparr> in
          (case files w filename of
             None \<Rightarrow> (Inl FileNotFoundError, w)
           | Some contents \<Rightarrow>
               let num_bytes = length (peek contents);
                   w1 = (if num_bytes \<noteq> 74 then log_add w (Error_Incorrect_Size num_bytes) else w)
               in (case unpack_loop order contents [] of
                     Inl e \<Rightarrow> (Inl e, w1)
                   | Inr data \<Rightarrow> (Inr (date, data), w1))))"

section \<open>\<^verbatim>\<open>upload_beacon\<close>\<close>

text \<open>
  The answers of the remote server are an input: \<open>remote k\<close> is the outcome of the
  \<open>k\<close>-th call of \<^verbatim>\<open>requests.post\<close> that the process makes, counted from 0.

  The loop over \<^verbatim>\<open>data.items()\<close> either runs to its end (\<open>Inr True\<close>), or leaves the
  function by the \<^verbatim>\<open>return\<close> after a response that is not ok (\<open>Inr False\<close>), or is left by
  an exception of \<^verbatim>\<open>requests.post\<close>.
\<close>

definition record_request :: "string \<Rightarrow> string \<Rightarrow> datetime \<Rightarrow> string \<times> py_tuple \<Rightarrow> request" where
  "record_request target token date item =
     \<lparr>url = target @ ''/api/objects/records/'', authorization = token,
      created_at = isoformat date, val = snd item, source = fst item\<rparr>"

fun post_loop ::
  "(nat \<Rightarrow> post_outcome) \<Rightarrow> string \<Rightarrow> string \<Rightarrow> datetime \<Rightarrow> dict \<Rightarrow> world \<Rightarrow> (error + bool) \<times> world"
where
  "post_loop remote target token date [] w = (Inr True, w)"
| "post_loop remote target token date ((rs, v) # items) w =
     (let r = remote (length (posts w));
          w1 = w\<lparr>posts := posts w @ [record_request target token date (rs, v)]\<rparr>
      in case r of
           Transport_Failure \<Rightarrow> (Inl RequestException, w1)
         | Response ok content \<Rightarrow>
             if \<not> ok then (Inr False, log_add (w1\<lparr>error_html := Some content\<rparr>) Error_MOC)
             else post_loop remote target token date items w1)"

text \<open>\<^verbatim>\<open>Path.rename\<close>: the file leaves its old path and is found at the new one.\<close>

definition rename :: "world \<Rightarrow> path \<Rightarrow> path \<Rightarrow> (error + unit) \<times> world" where
  "rename w src dst =
     (case files w src of
        None \<Rightarrow> (Inl FileNotFoundError, w)
      | Some contents \<Rightarrow> (Inr (), w\<lparr>files := (files w)(src := None, dst := Some contents)\<rparr>))"

text \<open>The function returns \<^verbatim>\<open>None\<close> on both of its ways out: the unit value.\<close>

definition upload_beacon ::
  "field list \<Rightarrow> (nat \<Rightarrow> post_outcome) \<Rightarrow> string \<Rightarrow> string \<Rightarrow> path \<Rightarrow> world \<Rightarrow> (error + unit) \<times> world"
where
  "upload_beacon order remote target token beacon_path w =
     (case parse_beacon order beacon_path w of
        (Inl e, w1) \<Rightarrow> (Inl e, w1)
      | (Inr (date, data), w1) \<Rightarrow>
          (case post_loop remote target token date data (log_add w1 Info_Uploading) of
             (Inl e, w2) \<Rightarrow> (Inl e, w2)
           | (Inr False, w2) \<Rightarrow> (Inr (), w2)
           | (Inr True, w2) \<Rightarrow>
               rename (log_add w2 (Info_Processed (name beacon_path))) beacon_path
                 (Path (parent beacon_path) (''processed_'' @ name beacon_path))))"

section \<open>The handler, the schema check and \<^verbatim>\<open>main\<close>\<close>

definition on_created ::
  "field list \<Rightarrow> (nat \<Rightarrow> post_outcome) \<Rightarrow> string \<Rightarrow> string \<Rightarrow> path \<Rightarrow> world \<Rightarrow> (error + unit) \<times> world"
where
  "on_created order remote target token src_path w =
     (if \<not> prefix BEACON_FILE_PREFIX (name src_path) then (Inr (), w)
      else upload_beacon order remote target token src_path (log_add w (Info_Detected src_path)))"

text \<open>
  The answer to the one \<^verbatim>\<open>requests.get\<close> of \<^verbatim>\<open>check_database\<close>: an exception of the
  transport, or a response with its \<^verbatim>\<open>ok\<close> flag and, when its body is JSON of the shape
  \<^verbatim>\<open>{"results": [{"suffix": ...}, ...]}\<close>, the list of the suffixes.
\<close>

datatype get_outcome = Get_Response bool "string list option" | Get_Failure

definition check_database :: "field list \<Rightarrow> get_outcome \<Rightarrow> world \<Rightarrow> (error + unit) \<times> world" where
  "check_database order record_sources w =
     (let w1 = log_add w Info_Checking in
      case record_sources of
        Get_Failure \<Rightarrow> (Inl RequestException, w1)
      | Get_Response ok body \<Rightarrow>
          if \<not> ok then (Inl HTTPError, w1)
          else (case body of
                  None \<Rightarrow> (Inl BodyError, w1)
                | Some django_record_sources \<Rightarrow>
                    let expected_record_sources = map fst order in
                    if set django_record_sources \<noteq> set expected_record_sources
                    then (Inl Exception,
                          log_add (log_add (log_add w1 Error_Missing)
                            (Error_Expected expected_record_sources))
                            (Error_Got django_record_sources))
                    else (Inr (), w1)))"

text \<open>
  \<^verbatim>\<open>Path(args.path).glob('beacon_*')\<close>: the entries of the directory, in the order of its
  listing, whose names start with the prefix.
\<close>

definition glob :: "string \<Rightarrow> string list \<Rightarrow> path list" where
  "glob dir listing = map (Path dir) (filter (prefix BEACON_FILE_PREFIX) listing)"

fun upload_existing ::
  "field list \<Rightarrow> (nat \<Rightarrow> post_outcome) \<Rightarrow> string \<Rightarrow> string \<Rightarrow> path list \<Rightarrow> world \<Rightarrow> (error + unit) \<times> world"
where
  "upload_existing order remote target token [] w = (Inr (), w)"
| "upload_existing order remote target token (beacon_path # rest) w =
     (case upload_beacon order remote target token beacon_path w of
        (Inl e, w1) \<Rightarrow> (Inl e, w1)
      | (Inr _, w1) \<Rightarrow> upload_existing order remote target token rest w1)"

text \<open>
  \<^verbatim>\<open>main\<close> up to the start of the observer: the token gets its prefix, the database is
  checked, and the beacons already in the directory \<open>dir\<close>, whose listing is \<open>listing\<close>,
  are uploaded.
\<close>

definition main ::
  "field list \<Rightarrow> get_outcome \<Rightarrow> (nat \<Rightarrow> post_outcome) \<Rightarrow> string \<Rightarrow> string \<Rightarrow> string \<Rightarrow> string list
     \<Rightarrow> world \<Rightarrow> (error + unit) \<times> world"
where
  "main order record_sources remote target token dir listing w =
     (case check_database order record_sources w of
        (Inl e, w1) \<Rightarrow> (Inl e, w1)
      | (Inr _, w1) \<Rightarrow>
          upload_existing order remote target (''Token '' @ token) (glob dir listing) w1)"

section \<open>Auxiliary notions and example inputs\<close>


text \<open>
  An iteration order other than the declaration order, a well-named beacon file of 74
  zero bytes in an otherwise empty world, a second beacon whose bytes count up from 0,
  and servers that accept or reject every request or cannot be reached.
\<close>

definition example_order :: "field list" where
  "example_order = rev declaration_order"

definition example_path :: path where
  "example_path = Path ''/beacons'' ''beacon_2021-10-19_14:30:00''"

definition example_date :: datetime where
  "example_date = \<lparr>year = 2021, month = 10, day = 19, hour = 14, minute = 30, second = 0,
                    tzinfo = Some UTC\<rparr>"

definition zero_beacon :: "byte list" where
  "zero_beacon = replicate 74 0"

definition zero_data :: "field list \<Rightarrow> dict" where
  "zero_data order =
     map (\<lambda>(rs, t, s). (rs, [case t of LE_f \<Rightarrow> PyFloat32 0 | _ \<Rightarrow> PyInt 0])) order"

definition counting_beacon :: "byte list" where
  "counting_beacon = map of_nat [0..<74]"

definition world_with :: "path \<Rightarrow> byte list \<Rightarrow> world" where
  "world_with p contents =
     \<lparr>files = (\<lambda>q. if q = p then Some contents else None), error_html = None,
      posts = [], logged = []\<rparr>"

definition example_world :: world where
  "example_world = world_with example_path zero_beacon"

definition accept_all :: "nat \<Rightarrow> post_outcome" where
  "accept_all k = Response True []"

definition reject_all :: "nat \<Rightarrow> post_outcome" where
  "reject_all k = Response False (map of_char ''<html>Bad Request</html>'')"

definition unreachable :: "nat \<Rightarrow> post_outcome" where
  "unreachable k = Transport_Failure"

text \<open>
  A directory that holds, beside the example beacon, a file whose name has the prefix but
  no date; and the example beacon cut short by one byte, and made longer by one.
\<close>

definition bad_path :: path where
  "bad_path = Path ''/beacons'' ''beacon_bad-name''"

definition two_file_world :: world where
  "two_file_world =
     \<lparr>files = (\<lambda>q. if q = bad_path \<or> q = example_path then Some zero_beacon else None),
      error_html = None, posts = [], logged = []\<rparr>"



definition all_names :: get_outcome where
  "all_names = Get_Response True (Some (map fst declaration_order))"

definition counting_world :: world where
  "counting_world = world_with example_path counting_beacon"

text \<open>The mapping that the unpacking loop builds from the counting beacon in the example order.\<close>

definition counting_decoded :: dict where
  "counting_decoded =
     [(''battery_temperature3'', [PyFloat32 0x03020100]),
      (''battery_temperature2'', [PyFloat32 0x07060504]),
      (''battery_temperature1'', [PyFloat32 0x0B0A0908]),
      (''battery_temperature0'', [PyFloat32 0x0F0E0D0C]),
      (''battery_voltage3'', [PyFloat32 0x13121110]),
      (''battery_voltage2'', [PyFloat32 0x17161514]),
      (''battery_voltage1'', [PyFloat32 0x1B1A1918]),
      (''battery_voltage0'', [PyFloat32 0x1F1E1D1C]),
      (''algorithm'', [PyInt 32]),
      (''illumination_state'', [PyInt 8737]),
      (''rates2'', [PyFloat32 0x26252423]),
      (''rates1'', [PyFloat32 0x2A292827]),
      (''rates0'', [PyFloat32 0x2E2D2C2B]),
      (''quaternions3'', [PyFloat32 0x3231302F]),
      (''quaternions2'', [PyFloat32 0x36353433]),
      (''quaternions1'', [PyFloat32 0x3A393837]),
      (''quaternions0'', [PyFloat32 0x3E3D3C3B]),
      (''custom_data3'', [PyInt 63]),
      (''custom_data2'', [PyInt 64]),
      (''custom_data1'', [PyInt 65]),
      (''custom_data0'', [PyInt 66]),
      (''system_time'', [PyInt 1178944579]),
      (''host_id'', [PyInt 71]),
      (''sync'', [PyInt 18760])]"

text \<open>
  The encoder of the round-trip property. The module has none; these definitions follow
  the specification's words: a synthetic buffer, little-endian, laid out as the table is
  declared. \<open>spec_pack\<close> is \<^verbatim>\<open>struct.pack\<close> for the four formats, on values in range.
\<close>

fun le_bytes :: "nat \<Rightarrow> int \<Rightarrow> byte list" where
  "le_bytes 0 i = []"
| "le_bytes (Suc n) i = word_of_int i # le_bytes n (i div 256)"

definition spec_pack :: "fmt \<Rightarrow> py_value \<Rightarrow> byte list" where
  "spec_pack t v =
     (case v of PyInt i \<Rightarrow> le_bytes (calcsize t) i | PyFloat32 w \<Rightarrow> le_bytes 4 (uint w))"

definition spec_encode :: "(string \<Rightarrow> py_value) \<Rightarrow> byte list" where
  "spec_encode vals = concat (map (\<lambda>(rs, t, s). spec_pack t (vals rs)) declaration_order)"

definition well_typed :: "fmt \<Rightarrow> py_value \<Rightarrow> bool" where
  "well_typed t v =
     (case v of
        PyInt i \<Rightarrow> t \<noteq> LE_f \<and> 0 \<le> i \<and> i < 2 ^ (8 * calcsize t)
      | PyFloat32 w \<Rightarrow> t = LE_f)"

text \<open>Known values: every float field is 1.0 (the pattern 3F800000), every other field 1.\<close>

definition known_values :: "string \<Rightarrow> py_value" where
  "known_values rs =
     (case map_of declaration_order rs of
        Some (LE_f, s) \<Rightarrow> PyFloat32 0x3F800000
      | _ \<Rightarrow> PyInt 1)"

definition known_world :: world where
  "known_world = world_with example_path (spec_encode known_values)"








text \<open>Servers that accept the first \<open>n\<close> requests and then reject, or cannot be reached.\<close>

definition reject_from :: "nat \<Rightarrow> nat \<Rightarrow> post_outcome" where
  "reject_from n k = (if k < n then accept_all k else reject_all k)"

definition unreachable_from :: "nat \<Rightarrow> nat \<Rightarrow> post_outcome" where
  "unreachable_from n k = (if k < n then accept_all k else unreachable k)"

section \<open>Facts about the format table\<close>

lemma distinct_declaration_order: "distinct declaration_order"
  by (simp add: declaration_order_def)

lemma BEACON_FORMAT_declared: "BEACON_FORMAT = set declaration_order"
  by (simp add: declaration_order_def BEACON_FORMAT_def)

lemma distinct_declared_names: "distinct (map fst declaration_order)"
  by (simp add: declaration_order_def)

lemma inj_on_fst_BEACON_FORMAT: "inj_on fst BEACON_FORMAT"
proof -
  have "distinct declaration_order \<and> inj_on fst (set declaration_order)"
    using distinct_declared_names by (simp only: distinct_map)
  then show ?thesis by (simp only: BEACON_FORMAT_declared)
qed

lemma set_iteration_names: "set_iteration order \<Longrightarrow> distinct (map fst order)"
  by (simp add: set_iteration_def distinct_map inj_on_fst_BEACON_FORMAT)

lemma set_iteration_declaration_order: "set_iteration declaration_order"
  by (simp add: set_iteration_def distinct_declaration_order BEACON_FORMAT_declared)

lemma set_iteration_rev: "set_iteration (rev declaration_order)"
  by (simp add: set_iteration_def distinct_declaration_order BEACON_FORMAT_declared)

lemma declared_sizes: "\<forall>(rs, t, s) \<in> set declaration_order. s = calcsize t"
  by (simp add: declaration_order_def calcsize_def)




subsection \<open>The unpacking loop\<close>

lemma setitem_fresh: "k \<notin> fst ` set d \<Longrightarrow> setitem d k v = d @ [(k, v)]"
  by (induction d) auto


lemma unpack_Inl: "unpack t bs = Inl e \<Longrightarrow> e = StructError \<and> length bs \<noteq> calcsize t"
  by (auto simp: unpack_def split: if_splits)


lemma unpack_loop_keys:
  "distinct (map fst fs) \<Longrightarrow> fst ` set data \<inter> fst ` set fs = {} \<Longrightarrow>
   unpack_loop fs buf data = Inr d \<Longrightarrow> map fst d = map fst data @ map fst fs"
proof (induction fs arbitrary: buf data)
  case Nil
  then show ?case by simp
next
  case (Cons f fs)
  obtain rs t s where f: "f = (rs, t, s)" by (cases f)
  from Cons.prems(3) f obtain v where
    v: "unpack t (take s buf) = Inr v" and
    rest: "unpack_loop fs (drop s buf) (setitem data rs v) = Inr d"
    by (auto split: sum.splits)
  have fresh: "rs \<notin> fst ` set data" using Cons.prems(2) f by auto
  then have si: "setitem data rs v = data @ [(rs, v)]" by (rule setitem_fresh)
  have "fst ` set (data @ [(rs, v)]) \<inter> fst ` set fs = {}"
    using Cons.prems(1,2) f by auto
  with Cons.IH [of "data @ [(rs, v)]" "drop s buf"] Cons.prems(1) rest si
  have "map fst d = map fst (data @ [(rs, v)]) @ map fst fs" by simp
  then show ?case using f by simp
qed

lemma unpack_loop_values:
  "distinct (map fst fs) \<Longrightarrow> fst ` set data \<inter> fst ` set fs = {} \<Longrightarrow>
   unpack_loop fs buf data = Inr d \<Longrightarrow> (rs, v) \<in> set d \<Longrightarrow>
   (rs, v) \<in> set data \<or> (\<exists>t s bs. (rs, t, s) \<in> set fs \<and> unpack t bs = Inr v)"
proof (induction fs arbitrary: buf data)
  case Nil
  then show ?case by simp
next
  case (Cons f fs)
  obtain rs' t s where f: "f = (rs', t, s)" by (cases f)
  from Cons.prems(3) f obtain v' where
    v: "unpack t (take s buf) = Inr v'" and
    rest: "unpack_loop fs (drop s buf) (setitem data rs' v') = Inr d"
    by (auto split: sum.splits)
  have fresh: "rs' \<notin> fst ` set data" using Cons.prems(2) f by auto
  then have si: "setitem data rs' v' = data @ [(rs', v')]" by (rule setitem_fresh)
  have "fst ` set (data @ [(rs', v')]) \<inter> fst ` set fs = {}"
    using Cons.prems(1,2) f by auto
  with Cons.IH [of "data @ [(rs', v')]" "drop s buf"] Cons.prems(1,4) rest si
  have "(rs, v) \<in> set (data @ [(rs', v')]) \<or> (\<exists>t s bs. (rs, t, s) \<in> set fs \<and> unpack t bs = Inr v)"
    by simp
  then show ?case using f v by auto
qed



subsection \<open>The posting loop\<close>

lemma post_loop_all_ok:
  "\<forall>i<length items. \<exists>c. remote (length (posts w) + i) = Response True c \<Longrightarrow>
   post_loop remote target token date items w =
     (Inr True, w\<lparr>posts := posts w @ map (record_request target token date) items\<rparr>)"
proof (induction items arbitrary: w)
  case Nil
  then show ?case by simp
next
  case (Cons item items)
  obtain rs v where item: "item = (rs, v)" by (cases item)
  let ?w1 = "w\<lparr>posts := posts w @ [record_request target token date (rs, v)]\<rparr>"
  from Cons.prems obtain c where c: "remote (length (posts w)) = Response True c"
    by fastforce
  have "\<forall>i<length items. \<exists>c. remote (length (posts ?w1) + i) = Response True c"
  proof (intro allI impI)
    fix i assume "i < length items"
    then have "Suc i < length (item # items)" by simp
    with Cons.prems obtain c' where "remote (length (posts w) + Suc i) = Response True c'"
      by blast
    then show "\<exists>c. remote (length (posts ?w1) + i) = Response True c" by simp
  qed
  from Cons.IH [OF this] c item show ?case by simp
qed

lemma post_loop_rejected:
  "n < length items \<Longrightarrow>
   \<forall>i<n. \<exists>c. remote (length (posts w) + i) = Response True c \<Longrightarrow>
   remote (length (posts w) + n) = Response False body \<Longrightarrow>
   post_loop remote target token date items w =
     (Inr False,
      log_add (w\<lparr>posts := posts w @ map (record_request target token date) (take (Suc n) items),
                  error_html := Some body\<rparr>) Error_MOC)"
proof (induction items arbitrary: w n)
  case Nil
  then show ?case by simp
next
  case (Cons item items)
  obtain rs v where item: "item = (rs, v)" by (cases item)
  let ?w1 = "w\<lparr>posts := posts w @ [record_request target token date (rs, v)]\<rparr>"
  show ?case
  proof (cases n)
    case 0
    then show ?thesis using Cons.prems item by simp
  next
    case (Suc m)
    from Cons.prems(2) Suc obtain c where c: "remote (length (posts w)) = Response True c"
      by fastforce
    have m: "m < length items" using Cons.prems(1) Suc by simp
    have ok: "\<forall>i<m. \<exists>c. remote (length (posts ?w1) + i) = Response True c"
    proof (intro allI impI)
      fix i assume "i < m"
      then have "Suc i < n" using Suc by simp
      with Cons.prems(2) obtain c' where "remote (length (posts w) + Suc i) = Response True c'"
        by blast
      then show "\<exists>c. remote (length (posts ?w1) + i) = Response True c" by simp
    qed
    have bad: "remote (length (posts ?w1) + m) = Response False body"
      using Cons.prems(3) Suc by simp
    from Cons.IH [OF m ok bad] c item Suc show ?thesis by simp
  qed
qed

lemma post_loop_transport:
  "n < length items \<Longrightarrow>
   \<forall>i<n. \<exists>c. remote (length (posts w) + i) = Response True c \<Longrightarrow>
   remote (length (posts w) + n) = Transport_Failure \<Longrightarrow>
   post_loop remote target token date items w =
     (Inl RequestException,
      w\<lparr>posts := posts w @ map (record_request target token date) (take (Suc n) items)\<rparr>)"
proof (induction items arbitrary: w n)
  case Nil
  then show ?case by simp
next
  case (Cons item items)
  obtain rs v where item: "item = (rs, v)" by (cases item)
  let ?w1 = "w\<lparr>posts := posts w @ [record_request target token date (rs, v)]\<rparr>"
  show ?case
  proof (cases n)
    case 0
    then show ?thesis using Cons.prems item by simp
  next
    case (Suc m)
    from Cons.prems(2) Suc obtain c where c: "remote (length (posts w)) = Response True c"
      by fastforce
    have m: "m < length items" using Cons.prems(1) Suc by simp
    have ok: "\<forall>i<m. \<exists>c. remote (length (posts ?w1) + i) = Response True c"
    proof (intro allI impI)
      fix i assume "i < m"
      then have "Suc i < n" using Suc by simp
      with Cons.prems(2) obtain c' where "remote (length (posts w) + Suc i) = Response True c'"
        by blast
      then show "\<exists>c. remote (length (posts ?w1) + i) = Response True c" by simp
    qed
    have bad: "remote (length (posts ?w1) + m) = Transport_Failure"
      using Cons.prems(3) Suc by simp
    from Cons.IH [OF m ok bad] c item Suc show ?thesis by simp
  qed
qed

lemma post_loop_completes_only_if_all_ok:
  "fst (post_loop remote target token date items w) = Inr True \<Longrightarrow>
   i < length items \<Longrightarrow> \<exists>c. remote (length (posts w) + i) = Response True c"
proof (induction items arbitrary: w i)
  case Nil
  then show ?case by simp
next
  case (Cons item items)
  obtain rs v where item: "item = (rs, v)" by (cases item)
  let ?w1 = "w\<lparr>posts := posts w @ [record_request target token date (rs, v)]\<rparr>"
  from Cons.prems(1) item obtain c where
    c: "remote (length (posts w)) = Response True c" and
    rest: "fst (post_loop remote target token date items ?w1) = Inr True"
    by (auto simp: Let_def split: post_outcome.splits if_splits)
  show ?case
  proof (cases i)
    case 0
    then show ?thesis using c by simp
  next
    case (Suc j)
    then have "j < length items" using Cons.prems(2) by simp
    from Cons.IH [OF rest this] Suc show ?thesis by simp
  qed
qed

lemma post_loop_files: "files (snd (post_loop remote target token date items w)) = files w"
  by (induction items arbitrary: w)
     (auto simp: Let_def log_add_def split: post_outcome.splits)


subsection \<open>Parsing and uploading one beacon\<close>

lemma strptime_example_name:
  "strptime ''beacon_2021-10-19_14:30:00'' =
     Inr \<lparr>year = 2021, month = 10, day = 19, hour = 14, minute = 30, second = 0, tzinfo = None\<rparr>"
  by code_simp

lemma unpack_loop_zero_beacon: "unpack_loop example_order zero_beacon [] = Inr (zero_data example_order)"
  by code_simp

lemma length_peek: "length (peek contents) = 74 \<longleftrightarrow> length contents = 74"
  by (auto simp: peek_def buffer_size_def)

lemma length_zero_beacon: "length zero_beacon = 74"
  by (simp add: zero_beacon_def)

lemma parse_beacon_example:
  "parse_beacon example_order example_path example_world =
     (Inr (example_date, zero_data example_order), example_world)"
  by (simp add: parse_beacon_def example_path_def strptime_example_name example_world_def
      world_with_def unpack_loop_zero_beacon length_peek example_date_def length_zero_beacon)

lemma parse_beacon_Inr:
  assumes "fst (parse_beacon order p w) = Inr (date, data)"
  obtains date0 contents where "strptime (name p) = Inr date0" "date = date0\<lparr>tzinfo := Some UTC\<rparr>"
    "files w p = Some contents" "unpack_loop order contents [] = Inr data"
  using assms
  by (auto simp: parse_beacon_def Let_def split: sum.splits option.splits)

lemma parse_beacon_world:
  "files (snd (parse_beacon order p w)) = files w"
  "posts (snd (parse_beacon order p w)) = posts w"
  "error_html (snd (parse_beacon order p w)) = error_html w"
  by (auto simp: parse_beacon_def Let_def log_add_def split: sum.splits option.splits)


lemma set_iteration_example_order: "set_iteration example_order"
  by (simp add: example_order_def set_iteration_rev)


lemma upload_beacon_parsed:
  "parse_beacon order p w = (Inr (date, data), w1) \<Longrightarrow>
   upload_beacon order remote target token p w =
     (case post_loop remote target token date data (log_add w1 Info_Uploading) of
        (Inl e, w2) \<Rightarrow> (Inl e, w2)
      | (Inr False, w2) \<Rightarrow> (Inr (), w2)
      | (Inr True, w2) \<Rightarrow>
          rename (log_add w2 (Info_Processed (name p))) p
            (Path (parent p) (''processed_'' @ name p)))"
  by (simp add: upload_beacon_def)


section \<open>The claims\<close>

subsection \<open>C10: the stored values are tuples\<close>



subsection \<open>C6: the schema check\<close>

lemma card_names: "card (fst ` BEACON_FORMAT) = 24"
proof -
  have "card (fst ` BEACON_FORMAT) = card BEACON_FORMAT"
    using inj_on_fst_BEACON_FORMAT by (rule card_image)
  also have "\<dots> = length declaration_order"
    unfolding BEACON_FORMAT_declared using distinct_declaration_order by (rule distinct_card)
  also have "\<dots> = 24" by (simp add: declaration_order_def)
  finally show ?thesis .
qed

lemma set_iteration_name_set: "set_iteration order \<Longrightarrow> set (map fst order) = fst ` BEACON_FORMAT"
  by (simp add: set_iteration_def)

text \<open>
  Claim C6. The schema check of \<^verbatim>\<open>check_database\<close> compares the set of the names that the
  server returned (the order and the repetitions of the list do not count) with the set of
  the 24 names of \<^verbatim>\<open>BEACON_FORMAT\<close>. When the sets differ, \<^verbatim>\<open>main\<close> ends with the exception
  raised by the check, and the world is as it was but for the log: no file was renamed and
  no request posted. When they are equal, \<^verbatim>\<open>main\<close> goes on to upload the beacons found in
  the directory.
\<close>

theorem schema_check_compares_sets:
  assumes "set_iteration order"
  shows "card (fst ` BEACON_FORMAT) = 24
    \<and> main order (Get_Response True (Some django_record_sources)) remote target token dir listing w =
      (if set django_record_sources \<noteq> fst ` BEACON_FORMAT
       then (Inl Exception,
             w\<lparr>logged := logged w @ [Info_Checking, Error_Missing, Error_Expected (map fst order),
                                      Error_Got django_record_sources]\<rparr>)
       else upload_existing order remote target (''Token '' @ token) (glob dir listing)
              (log_add w Info_Checking))"
  using set_iteration_name_set [OF assms] card_names
  by (simp add: main_def check_database_def Let_def log_add_def)

lemma sync_host_id_not_all: "set [''sync'', ''host_id''] \<noteq> fst ` BEACON_FORMAT"
proof -
  have "''rates0'' \<in> fst ` BEACON_FORMAT"
    by (simp add: BEACON_FORMAT_def)
  moreover have "''rates0'' \<notin> set [''sync'', ''host_id'']" by simp
  ultimately show ?thesis by blast
qed

theorem schema_check_compares_sets_witness:
  "set_iteration example_order
   \<and> card (fst ` BEACON_FORMAT) = 24
   \<and> main example_order (Get_Response True (Some [''sync'', ''host_id''])) accept_all
       ''http://moc'' ''t'' ''/beacons'' [''beacon_2021-10-19_14:30:00''] example_world =
      (Inl Exception,
       example_world\<lparr>logged := logged example_world @
          [Info_Checking, Error_Missing, Error_Expected (map fst example_order),
           Error_Got [''sync'', ''host_id'']]\<rparr>)
   \<and> main example_order (Get_Response True (Some (''sync'' # map fst declaration_order))) accept_all
       ''http://moc'' ''t'' ''/beacons'' [''beacon_2021-10-19_14:30:00''] example_world =
      upload_existing example_order accept_all ''http://moc'' (''Token '' @ ''t'')
        (glob ''/beacons'' [''beacon_2021-10-19_14:30:00'']) (log_add example_world Info_Checking)"
proof -
  have a: "set (''sync'' # map fst declaration_order) = fst ` BEACON_FORMAT"
    by (simp add: BEACON_FORMAT_declared declaration_order_def)
  show ?thesis
    using schema_check_compares_sets [OF set_iteration_example_order,
        of "[''sync'', ''host_id'']" accept_all "''http://moc''" "''t''" "''/beacons''"
           "[''beacon_2021-10-19_14:30:00'']" example_world]
      schema_check_compares_sets [OF set_iteration_example_order,
        of "''sync'' # map fst declaration_order" accept_all "''http://moc''" "''t''" "''/beacons''"
           "[''beacon_2021-10-19_14:30:00'']" example_world]
      set_iteration_example_order sync_host_id_not_all a
    by (simp del: list.set)
qed

subsection \<open>C4: the processed file\<close>

lemma upload_beacon_success:
  assumes "fst (parse_beacon order p w) = Inr (date, data)"
    and "\<forall>i<length data. \<exists>c. remote (length (posts w) + i) = Response True c"
  shows "fst (upload_beacon order remote target token p w) = Inr ()"
    and "files (snd (upload_beacon order remote target token p w)) =
           (files w)(p := None, Path (parent p) (''processed_'' @ name p) := files w p)"
    and "posts (snd (upload_beacon order remote target token p w)) =
           posts w @ map (record_request target token date) data"
    and "error_html (snd (upload_beacon order remote target token p w)) = error_html w"
proof -
  obtain w1 where p: "parse_beacon order p w = (Inr (date, data), w1)"
    using assms(1) by (cases "parse_beacon order p w") simp
  have w1: "posts w1 = posts w" "files w1 = files w" "error_html w1 = error_html w"
    using parse_beacon_world [of order p w] p by simp_all
  obtain contents where c: "files w p = Some contents"
    using assms(1) by (auto elim: parse_beacon_Inr)
  let ?w = "log_add w1 Info_Uploading"
  have "\<forall>i<length data. \<exists>c. remote (length (posts ?w) + i) = Response True c"
    using assms(2) w1 by (simp add: log_add_def)
  then have loop: "post_loop remote target token date data ?w =
      (Inr True, ?w\<lparr>posts := posts ?w @ map (record_request target token date) data\<rparr>)"
    by (rule post_loop_all_ok)
  show "fst (upload_beacon order remote target token p w) = Inr ()"
    unfolding upload_beacon_parsed [OF p] loop using c w1 by (simp add: rename_def log_add_def)
  show "files (snd (upload_beacon order remote target token p w)) =
           (files w)(p := None, Path (parent p) (''processed_'' @ name p) := files w p)"
    unfolding upload_beacon_parsed [OF p] loop using c w1 by (simp add: rename_def log_add_def)
  show "posts (snd (upload_beacon order remote target token p w)) =
           posts w @ map (record_request target token date) data"
    unfolding upload_beacon_parsed [OF p] loop using c w1 by (simp add: rename_def log_add_def)
  show "error_html (snd (upload_beacon order remote target token p w)) = error_html w"
    unfolding upload_beacon_parsed [OF p] loop using c w1 by (simp add: rename_def log_add_def)
qed

lemma processed_name_not_selected: "\<not> prefix BEACON_FILE_PREFIX (''processed_'' @ n)"
  by (simp add: BEACON_FILE_PREFIX_def)

text \<open>
  Claim C4. When a beacon file is parsed and every one of its requests gets a response that
  is ok, \<^verbatim>\<open>upload_beacon\<close> returns normally and the file has moved, in its directory, from
  its name to that name with \<^verbatim>\<open>processed_\<close> put before it. A path of that new name is in the
  result of no \<^verbatim>\<open>glob\<close> for the beacon prefix, and \<^verbatim>\<open>on_created\<close> returns at once, the
  world unchanged, for an event of that path.
\<close>

theorem processed_file_never_selected_again:
  assumes "fst (parse_beacon order p w) = Inr (date, data)"
    and "\<forall>i<length data. \<exists>c. remote (length (posts w) + i) = Response True c"
  shows "fst (upload_beacon order remote target token p w) = Inr ()
    \<and> files (snd (upload_beacon order remote target token p w)) =
         (files w)(p := None, Path (parent p) (''processed_'' @ name p) := files w p)
    \<and> files w p \<noteq> None
    \<and> Path (parent p) (''processed_'' @ name p) \<notin> set (glob dir listing)
    \<and> on_created order' remote' target' token' (Path (parent p) (''processed_'' @ name p)) w' =
         (Inr (), w')"
proof -
  have "files w p \<noteq> None"
    using assms(1) by (auto elim: parse_beacon_Inr)
  moreover have "Path (parent p) (''processed_'' @ name p) \<notin> set (glob dir listing)"
    using processed_name_not_selected [of "name p"] by (auto simp: glob_def)
  moreover have "on_created order' remote' target' token' (Path (parent p) (''processed_'' @ name p)) w' =
         (Inr (), w')"
    using processed_name_not_selected [of "name p"] by (simp add: on_created_def)
  ultimately show ?thesis
    using upload_beacon_success(1,2) [OF assms] by simp
qed

lemma accept_all_ok: "\<forall>i<n. \<exists>c. accept_all (k + i) = Response True c"
  by (simp add: accept_all_def)

theorem processed_file_never_selected_again_witness:
  "fst (parse_beacon example_order example_path example_world) =
       Inr (example_date, zero_data example_order)
   \<and> fst (upload_beacon example_order accept_all ''http://moc'' ''Token t'' example_path
            example_world) = Inr ()
   \<and> files (snd (upload_beacon example_order accept_all ''http://moc'' ''Token t'' example_path
                   example_world)) example_path = None
   \<and> files (snd (upload_beacon example_order accept_all ''http://moc'' ''Token t'' example_path
                   example_world)) (Path ''/beacons'' ''processed_beacon_2021-10-19_14:30:00'') =
        Some zero_beacon
   \<and> Path ''/beacons'' ''processed_beacon_2021-10-19_14:30:00'' \<notin>
        set (glob ''/beacons'' [''processed_beacon_2021-10-19_14:30:00''])
   \<and> on_created example_order accept_all ''http://moc'' ''Token t''
        (Path ''/beacons'' ''processed_beacon_2021-10-19_14:30:00'') example_world =
        (Inr (), example_world)"
proof -
  have h1: "fst (parse_beacon example_order example_path example_world) =
       Inr (example_date, zero_data example_order)"
    by (simp add: parse_beacon_example)
  have h2: "\<forall>i<length (zero_data example_order).
         \<exists>c. accept_all (length (posts example_world) + i) = Response True c"
    by (rule accept_all_ok)
  have f: "files example_world example_path = Some zero_beacon"
    "parent example_path = ''/beacons''" "name example_path = ''beacon_2021-10-19_14:30:00''"
    by (simp_all add: example_world_def world_with_def example_path_def)
  have ne: "Path ''/beacons'' ''processed_beacon_2021-10-19_14:30:00'' \<noteq> example_path"
    by (simp add: example_path_def)
  show ?thesis
    using processed_file_never_selected_again [OF h1 h2, of "''http://moc''" "''Token t''"
      "''/beacons''" "[''processed_beacon_2021-10-19_14:30:00'']"
      example_order accept_all "''http://moc''" "''Token t''" example_world] h1 h2 f ne
    by simp
qed

subsection \<open>C3: a rejected request\<close>

lemma upload_beacon_rejected:
  assumes "fst (parse_beacon order p w) = Inr (date, data)"
    and "n < length data"
    and "\<forall>i<n. \<exists>c. remote (length (posts w) + i) = Response True c"
    and "remote (length (posts w) + n) = Response False body"
  shows "upload_beacon order remote target token p w =
     (Inr (),
      log_add (log_add (snd (parse_beacon order p w)) Info_Uploading
                \<lparr>posts := posts w @ map (record_request target token date) (take (Suc n) data),
                  error_html := Some body\<rparr>) Error_MOC)"
proof -
  obtain w1 where p: "parse_beacon order p w = (Inr (date, data), w1)"
    using assms(1) by (cases "parse_beacon order p w") simp
  have w1: "posts w1 = posts w"
    using parse_beacon_world [of order p w] p by simp_all
  let ?w = "log_add w1 Info_Uploading"
  have pw: "posts ?w = posts w" using w1 by (simp add: log_add_def)
  have loop: "post_loop remote target token date data ?w =
     (Inr False,
      log_add (?w\<lparr>posts := posts ?w @ map (record_request target token date) (take (Suc n) data),
                  error_html := Some body\<rparr>) Error_MOC)"
    using assms(2-4) unfolding pw [symmetric] by (rule post_loop_rejected)
  show ?thesis
    unfolding upload_beacon_parsed [OF p] loop using p pw by simp
qed

lemma upload_beacon_transport:
  assumes "fst (parse_beacon order p w) = Inr (date, data)"
    and "n < length data"
    and "\<forall>i<n. \<exists>c. remote (length (posts w) + i) = Response True c"
    and "remote (length (posts w) + n) = Transport_Failure"
  shows "upload_beacon order remote target token p w =
     (Inl RequestException,
      log_add (snd (parse_beacon order p w)) Info_Uploading
        \<lparr>posts := posts w @ map (record_request target token date) (take (Suc n) data)\<rparr>)"
proof -
  obtain w1 where p: "parse_beacon order p w = (Inr (date, data), w1)"
    using assms(1) by (cases "parse_beacon order p w") simp
  have w1: "posts w1 = posts w"
    using parse_beacon_world [of order p w] p by simp_all
  let ?w = "log_add w1 Info_Uploading"
  have pw: "posts ?w = posts w" using w1 by (simp add: log_add_def)
  have loop: "post_loop remote target token date data ?w =
     (Inl RequestException,
      ?w\<lparr>posts := posts ?w @ map (record_request target token date) (take (Suc n) data)\<rparr>)"
    using assms(2-4) unfolding pw [symmetric] by (rule post_loop_transport)
  show ?thesis
    unfolding upload_beacon_parsed [OF p] loop using p pw by simp
qed

lemma upload_beacon_failed_parse:
  "fst (parse_beacon order p w) = Inl e \<Longrightarrow>
   upload_beacon order remote target token p w = (Inl e, snd (parse_beacon order p w))"
  by (cases "parse_beacon order p w") (simp add: upload_beacon_def)

lemma upload_beacon_renames_only_if_all_ok:
  assumes "fst (parse_beacon order p w) = Inr (date, data)"
    and "files (snd (upload_beacon order remote target token p w)) \<noteq> files w"
    and "i < length data"
  shows "\<exists>c. remote (length (posts w) + i) = Response True c"
proof -
  obtain w1 where p: "parse_beacon order p w = (Inr (date, data), w1)"
    using assms(1) by (cases "parse_beacon order p w") simp
  have w1: "posts w1 = posts w" "files w1 = files w"
    using parse_beacon_world [of order p w] p by simp_all
  let ?w = "log_add w1 Info_Uploading"
  have pw: "posts ?w = posts w" "files ?w = files w" using w1 by (simp_all add: log_add_def)
  obtain r w2 where l: "post_loop remote target token date data ?w = (r, w2)"
    by (cases "post_loop remote target token date data ?w")
  have f2: "files w2 = files w"
    using post_loop_files [of remote target token date data ?w] l pw by simp
  have "r = Inr True"
  proof (rule ccontr)
    assume "r \<noteq> Inr True"
    then have "files (snd (upload_beacon order remote target token p w)) = files w2"
      unfolding upload_beacon_parsed [OF p] l by (cases r) (auto split: bool.splits)
    with f2 assms(2) show False by simp
  qed
  then have "fst (post_loop remote target token date data ?w) = Inr True"
    using l by simp
  from post_loop_completes_only_if_all_ok [OF this assms(3)] pw show ?thesis by simp
qed

text \<open>
  Claim C3 as stated asks that \<^verbatim>\<open>upload_beacon\<close> return a failure after a rejected request.
  It returns \<^verbatim>\<open>None\<close>, as it does when every request was accepted: with a server that
  rejects every request and with one that accepts every request the returned value is the
  same.
\<close>

theorem rejected_upload_returns_none_counterexample:
  "fst (upload_beacon example_order reject_all ''http://moc'' ''Token t'' example_path
         example_world) = Inr ()
   \<and> fst (upload_beacon example_order accept_all ''http://moc'' ''Token t'' example_path
           example_world) = Inr ()"
proof -
  have h1: "fst (parse_beacon example_order example_path example_world) =
       Inr (example_date, zero_data example_order)"
    by (simp add: parse_beacon_example)
  have n: "0 < length (zero_data example_order)"
    by (simp add: zero_data_def example_order_def declaration_order_def)
  have r: "reject_all (length (posts example_world) + 0) =
      Response False (map of_char ''<html>Bad Request</html>'')"
    by (simp add: reject_all_def)
  have "fst (upload_beacon example_order reject_all ''http://moc'' ''Token t'' example_path
         example_world) = Inr ()"
    using upload_beacon_rejected [OF h1 n, of reject_all, OF _ r] by simp
  moreover have "fst (upload_beacon example_order accept_all ''http://moc'' ''Token t'' example_path
           example_world) = Inr ()"
    using upload_beacon_success(1) [OF h1 accept_all_ok] .
  ultimately show ?thesis by simp
qed

text \<open>
  Claim C3, amended. Let the beacon be parsed, and let the request of index \<open>n\<close> (counted
  from 0) be the first to get a response that is not ok. Then the requests made for this
  beacon are those of the first \<open>n + 1\<close> items of the mapping, each once and in order, and
  no other; the body of the response is the content of \<^verbatim>\<open>error.html\<close>, whatever it held
  before; \<^verbatim>\<open>upload_beacon\<close> returns \<^verbatim>\<open>None\<close> with no exception, the value it also returns on
  success; and no file has moved. For any server, the files differ after the call only if
  every request of the beacon got a response that is ok.
\<close>

theorem partial_failure_stops_upload:
  assumes "fst (parse_beacon order p w) = Inr (date, data)"
  shows "(n < length data
          \<and> (\<forall>i<n. \<exists>c. remote (length (posts w) + i) = Response True c)
          \<and> remote (length (posts w) + n) = Response False body
          \<longrightarrow> fst (upload_beacon order remote target token p w) = Inr ()
            \<and> posts (snd (upload_beacon order remote target token p w)) =
                posts w @ map (record_request target token date) (take (Suc n) data)
            \<and> error_html (snd (upload_beacon order remote target token p w)) = Some body
            \<and> files (snd (upload_beacon order remote target token p w)) = files w)
       \<and> (files (snd (upload_beacon order remote target token p w)) \<noteq> files w
          \<longrightarrow> (\<forall>i<length data. \<exists>c. remote (length (posts w) + i) = Response True c))"
proof (intro conjI impI allI)
  assume a: "n < length data
          \<and> (\<forall>i<n. \<exists>c. remote (length (posts w) + i) = Response True c)
          \<and> remote (length (posts w) + n) = Response False body"
  then have u: "upload_beacon order remote target token p w =
     (Inr (),
      log_add (log_add (snd (parse_beacon order p w)) Info_Uploading
                \<lparr>posts := posts w @ map (record_request target token date) (take (Suc n) data),
                  error_html := Some body\<rparr>) Error_MOC)"
    using upload_beacon_rejected [OF assms, of n remote body target token] by blast
  show "fst (upload_beacon order remote target token p w) = Inr ()"
    unfolding u by simp
  show "posts (snd (upload_beacon order remote target token p w)) =
                posts w @ map (record_request target token date) (take (Suc n) data)"
    unfolding u by (simp add: log_add_def)
  show "error_html (snd (upload_beacon order remote target token p w)) = Some body"
    unfolding u by (simp add: log_add_def)
  show "files (snd (upload_beacon order remote target token p w)) = files w"
    unfolding u by (simp add: log_add_def parse_beacon_world)
next
  fix i
  assume "files (snd (upload_beacon order remote target token p w)) \<noteq> files w"
    and "i < length data"
  then show "\<exists>c. remote (length (posts w) + i) = Response True c"
    using upload_beacon_renames_only_if_all_ok [OF assms] by blast
qed


lemma length_zero_data: "length (zero_data example_order) = 24"
  by (simp add: zero_data_def example_order_def declaration_order_def)

lemma parse_example_fst:
  "fst (parse_beacon example_order example_path example_world) =
     Inr (example_date, zero_data example_order)"
  by (simp add: parse_beacon_example)

lemma reject_from_2:
  "\<forall>i<2. \<exists>c. reject_from 2 (length (posts example_world) + i) = Response True c"
  "reject_from 2 (length (posts example_world) + 2) =
     Response False (map of_char ''<html>Bad Request</html>'')"
  by (simp_all add: reject_from_def accept_all_def reject_all_def example_world_def world_with_def)

lemma take_3_zero_data:
  "take (Suc 2) (zero_data example_order) =
     [(''battery_temperature3'', [PyFloat32 0]), (''battery_temperature2'', [PyFloat32 0]),
      (''battery_temperature1'', [PyFloat32 0])]"
  by (simp add: zero_data_def example_order_def declaration_order_def)

lemma example_files_change:
  "files (snd (upload_beacon example_order accept_all ''http://moc'' ''Token t'' example_path
                 example_world)) \<noteq> files example_world"
proof -
  have "files (snd (upload_beacon example_order accept_all ''http://moc'' ''Token t'' example_path
                 example_world)) example_path = None"
    using upload_beacon_success(2) [OF parse_example_fst accept_all_ok,
        of "''http://moc''" "''Token t''"]
    by (simp add: example_path_def)
  moreover have "files example_world example_path = Some zero_beacon"
    by (simp add: example_world_def world_with_def)
  ultimately show ?thesis by auto
qed

theorem partial_failure_stops_upload_witness:
  "fst (parse_beacon example_order example_path example_world) =
       Inr (example_date, zero_data example_order)
   \<and> fst (upload_beacon example_order (reject_from 2) ''http://moc'' ''Token t'' example_path
            example_world) = Inr ()
   \<and> posts (snd (upload_beacon example_order (reject_from 2) ''http://moc'' ''Token t''
                   example_path example_world)) =
        map (record_request ''http://moc'' ''Token t'' example_date)
          [(''battery_temperature3'', [PyFloat32 0]), (''battery_temperature2'', [PyFloat32 0]),
           (''battery_temperature1'', [PyFloat32 0])]
   \<and> error_html (snd (upload_beacon example_order (reject_from 2) ''http://moc'' ''Token t''
                        example_path example_world)) =
        Some (map of_char ''<html>Bad Request</html>'')
   \<and> files (snd (upload_beacon example_order (reject_from 2) ''http://moc'' ''Token t''
                   example_path example_world)) = files example_world
   \<and> files (snd (upload_beacon example_order accept_all ''http://moc'' ''Token t'' example_path
                   example_world)) \<noteq> files example_world
   \<and> (\<exists>c. accept_all (length (posts example_world) + 23) = Response True c)"
proof -
  have n: "2 < length (zero_data example_order)" "23 < length (zero_data example_order)"
    by (simp_all add: length_zero_data)
  have p0: "posts example_world = []"
    by (simp add: example_world_def world_with_def)
  from partial_failure_stops_upload [OF parse_example_fst, of 2 "reject_from 2"
      "map of_char ''<html>Bad Request</html>''" "''http://moc''" "''Token t''"]
    n(1) reject_from_2
  have a: "fst (upload_beacon example_order (reject_from 2) ''http://moc'' ''Token t'' example_path
            example_world) = Inr ()
   \<and> posts (snd (upload_beacon example_order (reject_from 2) ''http://moc'' ''Token t''
                   example_path example_world)) =
        posts example_world @ map (record_request ''http://moc'' ''Token t'' example_date)
          (take (Suc 2) (zero_data example_order))
   \<and> error_html (snd (upload_beacon example_order (reject_from 2) ''http://moc'' ''Token t''
                        example_path example_world)) =
        Some (map of_char ''<html>Bad Request</html>'')
   \<and> files (snd (upload_beacon example_order (reject_from 2) ''http://moc'' ''Token t''
                   example_path example_world)) = files example_world"
    by blast
  from partial_failure_stops_upload [OF parse_example_fst, of 0 accept_all
      "[]" "''http://moc''" "''Token t''"] example_files_change n(2)
  have b: "\<exists>c. accept_all (length (posts example_world) + 23) = Response True c"
    by blast
  show ?thesis
    using a b parse_example_fst example_files_change
    unfolding take_3_zero_data p0 by simp
qed

subsection \<open>C8: a failure of the transport\<close>

text \<open>
  Claim C8 as stated asks that a failure of the transport be handled as a rejection is.
  With a server that cannot be reached \<^verbatim>\<open>upload_beacon\<close> is left by the exception and
  \<^verbatim>\<open>error.html\<close> is not written; with a server that rejects, it returns normally and
  \<^verbatim>\<open>error.html\<close> holds the body of the response.
\<close>

theorem transport_failure_not_like_rejection_counterexample:
  "fst (upload_beacon example_order unreachable ''http://moc'' ''Token t'' example_path
         example_world) = Inl RequestException
   \<and> error_html (snd (upload_beacon example_order unreachable ''http://moc'' ''Token t''
                        example_path example_world)) = None
   \<and> fst (upload_beacon example_order reject_all ''http://moc'' ''Token t'' example_path
           example_world) = Inr ()
   \<and> error_html (snd (upload_beacon example_order reject_all ''http://moc'' ''Token t''
                        example_path example_world)) =
        Some (map of_char ''<html>Bad Request</html>'')"
proof -
  have n: "0 < length (zero_data example_order)"
    by (simp add: length_zero_data)
  have r: "reject_all (length (posts example_world) + 0) =
      Response False (map of_char ''<html>Bad Request</html>'')"
    by (simp add: reject_all_def)
  have t: "unreachable (length (posts example_world) + 0) = Transport_Failure"
    by (simp add: unreachable_def)
  have e: "error_html (snd (parse_beacon example_order example_path example_world)) = None"
    unfolding parse_beacon_example by (simp add: example_world_def world_with_def)
  show ?thesis
    using upload_beacon_rejected [OF parse_example_fst n, of reject_all, OF _ r,
        of "''http://moc''" "''Token t''"]
      upload_beacon_transport [OF parse_example_fst n, of unreachable, OF _ t,
        of "''http://moc''" "''Token t''"] e
    by (simp add: log_add_def)
qed

text \<open>
  Claim C8, amended. When the request of index \<open>n\<close> of a parsed beacon fails in the
  transport, after \<open>n\<close> accepted ones, the exception of \<^verbatim>\<open>requests.post\<close> leaves
  \<^verbatim>\<open>upload_beacon\<close> uncaught. As after a rejection, the requests made are those of the first
  \<open>n + 1\<close> items and no file has moved; unlike after a rejection, \<^verbatim>\<open>error.html\<close> is as it
  was, nothing is logged after the line that announces the upload, and the exception ends
  the loop over the beacons of the directory with the remaining paths not visited.
\<close>

theorem transport_failure_propagates:
  assumes "fst (parse_beacon order p w) = Inr (date, data)"
    and "n < length data"
    and "\<forall>i<n. \<exists>c. remote (length (posts w) + i) = Response True c"
    and "remote (length (posts w) + n) = Transport_Failure"
  shows "fst (upload_beacon order remote target token p w) = Inl RequestException
    \<and> posts (snd (upload_beacon order remote target token p w)) =
        posts w @ map (record_request target token date) (take (Suc n) data)
    \<and> files (snd (upload_beacon order remote target token p w)) = files w
    \<and> error_html (snd (upload_beacon order remote target token p w)) = error_html w
    \<and> logged (snd (upload_beacon order remote target token p w)) =
        logged (snd (parse_beacon order p w)) @ [Info_Uploading]
    \<and> fst (upload_existing order remote target token (p # rest) w) = Inl RequestException
    \<and> snd (upload_existing order remote target token (p # rest) w) =
        snd (upload_beacon order remote target token p w)"
  unfolding upload_existing.simps upload_beacon_transport [OF assms]
  by (simp add: log_add_def parse_beacon_world)

lemma unreachable_from_2:
  "\<forall>i<2. \<exists>c. unreachable_from 2 (length (posts example_world) + i) = Response True c"
  "unreachable_from 2 (length (posts example_world) + 2) = Transport_Failure"
  by (simp_all add: unreachable_from_def accept_all_def unreachable_def example_world_def
      world_with_def)

theorem transport_failure_propagates_witness:
  "fst (parse_beacon example_order example_path example_world) =
       Inr (example_date, zero_data example_order)
   \<and> fst (upload_beacon example_order (unreachable_from 2) ''http://moc'' ''Token t''
            example_path example_world) = Inl RequestException
   \<and> posts (snd (upload_beacon example_order (unreachable_from 2) ''http://moc'' ''Token t''
                   example_path example_world)) =
        map (record_request ''http://moc'' ''Token t'' example_date)
          [(''battery_temperature3'', [PyFloat32 0]), (''battery_temperature2'', [PyFloat32 0]),
           (''battery_temperature1'', [PyFloat32 0])]
   \<and> files (snd (upload_beacon example_order (unreachable_from 2) ''http://moc'' ''Token t''
                   example_path example_world)) = files example_world
   \<and> error_html (snd (upload_beacon example_order (unreachable_from 2) ''http://moc''
                        ''Token t'' example_path example_world)) = None
   \<and> logged (snd (upload_beacon example_order (unreachable_from 2) ''http://moc'' ''Token t''
                    example_path example_world)) = [Info_Uploading]
   \<and> fst (upload_existing example_order (unreachable_from 2) ''http://moc'' ''Token t''
            [example_path, Path ''/beacons'' ''beacon_2021-10-19_14:31:00''] example_world) =
        Inl RequestException"
proof -
  have n: "2 < length (zero_data example_order)"
    by (simp add: length_zero_data)
  have w: "posts example_world = []" "error_html example_world = None"
    "logged (snd (parse_beacon example_order example_path example_world)) = []"
    unfolding parse_beacon_example by (simp_all add: example_world_def world_with_def)
  show ?thesis
    using transport_failure_propagates [OF parse_example_fst n unreachable_from_2,
        of "''http://moc''" "''Token t''" "[Path ''/beacons'' ''beacon_2021-10-19_14:31:00'']"]
      parse_example_fst
    unfolding take_3_zero_data w by simp
qed

subsection \<open>C9: what a failure ends\<close>

lemma strptime_bad_name: "strptime ''beacon_bad-name'' = Inl ValueError"
  by code_simp

lemma parse_beacon_bad_name: "parse_beacon order bad_path w = (Inl ValueError, w)"
  by (simp add: parse_beacon_def bad_path_def strptime_bad_name)

lemma check_database_all_names:
  "set_iteration order \<Longrightarrow> check_database order all_names w = (Inr (), log_add w Info_Checking)"
  by (simp add: check_database_def all_names_def Let_def set_iteration_def BEACON_FORMAT_declared)

lemma glob_two:
  "glob ''/beacons'' [''beacon_bad-name'', ''beacon_2021-10-19_14:30:00''] = [bad_path, example_path]"
  by (simp add: glob_def BEACON_FILE_PREFIX_def bad_path_def example_path_def)

text \<open>
  Claim C9 as stated asks that the loop go on after a beacon that fails to decode. With a
  directory whose listing gives a file named \<^verbatim>\<open>beacon_bad-name\<close> before a well-formed beacon,
  \<^verbatim>\<open>main\<close> ends with the \<^verbatim>\<open>ValueError\<close> of the first: the second file is not uploaded and
  keeps its name.
\<close>

theorem decode_error_ends_the_scan_counterexample:
  "fst (main example_order all_names accept_all ''http://moc'' ''t'' ''/beacons''
          [''beacon_bad-name'', ''beacon_2021-10-19_14:30:00''] two_file_world) = Inl ValueError
   \<and> posts (snd (main example_order all_names accept_all ''http://moc'' ''t'' ''/beacons''
          [''beacon_bad-name'', ''beacon_2021-10-19_14:30:00''] two_file_world)) = []
   \<and> files (snd (main example_order all_names accept_all ''http://moc'' ''t'' ''/beacons''
          [''beacon_bad-name'', ''beacon_2021-10-19_14:30:00''] two_file_world)) example_path =
        Some zero_beacon"
  unfolding main_def check_database_all_names [OF set_iteration_example_order] glob_two
  by (simp add: upload_beacon_def parse_beacon_bad_name log_add_def two_file_world_def)

lemma parse_beacon_log_add:
  "fst (parse_beacon order p (log_add w e)) = fst (parse_beacon order p w)"
  by (simp add: parse_beacon_def log_add_def Let_def split: sum.splits option.splits)

text \<open>
  Claim C9, amended. A beacon whose upload is refused by a response that is not ok fails
  alone: \<^verbatim>\<open>upload_beacon\<close> logs the error and returns, so that the loop over the beacons of
  the directory goes on with the next path and \<^verbatim>\<open>on_created\<close> returns normally. A beacon
  that fails to decode does not: the exception of \<^verbatim>\<open>parse_beacon\<close> is caught nowhere, it
  ends the loop over the directory with the remaining paths not visited, and it leaves
  \<^verbatim>\<open>on_created\<close> towards the observer that called it.
\<close>

theorem failure_confined_or_propagated:
  "(fst (parse_beacon order p w) = Inr (date, data) \<and> n < length data
      \<and> (\<forall>i<n. \<exists>c. remote (length (posts w) + i) = Response True c)
      \<and> remote (length (posts w) + n) = Response False body
    \<longrightarrow> fst (upload_beacon order remote target token p w) = Inr ()
      \<and> Error_MOC \<in> set (logged (snd (upload_beacon order remote target token p w)))
      \<and> upload_existing order remote target token (p # rest) w =
          upload_existing order remote target token rest
            (snd (upload_beacon order remote target token p w))
      \<and> fst (on_created order remote target token p w) = Inr ())
   \<and> (fst (parse_beacon order p w) = Inl e
    \<longrightarrow> upload_existing order remote target token (p # rest) w =
          (Inl e, snd (parse_beacon order p w)))
   \<and> (fst (parse_beacon order p w) = Inl e \<and> prefix BEACON_FILE_PREFIX (name p)
    \<longrightarrow> fst (on_created order remote target token p w) = Inl e)"
proof (intro conjI impI)
  assume a: "fst (parse_beacon order p w) = Inr (date, data) \<and> n < length data
      \<and> (\<forall>i<n. \<exists>c. remote (length (posts w) + i) = Response True c)
      \<and> remote (length (posts w) + n) = Response False body"
  then have u: "upload_beacon order remote target token p w =
     (Inr (),
      log_add (log_add (snd (parse_beacon order p w)) Info_Uploading
                \<lparr>posts := posts w @ map (record_request target token date) (take (Suc n) data),
                  error_html := Some body\<rparr>) Error_MOC)"
    using upload_beacon_rejected [of order p w date data n remote body target token] by blast
  show "fst (upload_beacon order remote target token p w) = Inr ()"
    unfolding u by simp
  show "Error_MOC \<in> set (logged (snd (upload_beacon order remote target token p w)))"
    unfolding u by (simp add: log_add_def)
  show "upload_existing order remote target token (p # rest) w =
          upload_existing order remote target token rest
            (snd (upload_beacon order remote target token p w))"
    unfolding upload_existing.simps u by simp
  let ?w = "log_add w (Info_Detected p)"
  have "fst (parse_beacon order p ?w) = Inr (date, data)"
    using a by (simp add: parse_beacon_log_add)
  moreover have "posts ?w = posts w" by (simp add: log_add_def)
  ultimately have "fst (upload_beacon order remote target token p ?w) = Inr ()"
    using a upload_beacon_rejected [of order p ?w date data n remote body target token] by simp
  then show "fst (on_created order remote target token p w) = Inr ()"
    by (simp add: on_created_def)
next
  assume "fst (parse_beacon order p w) = Inl e"
  then show "upload_existing order remote target token (p # rest) w =
          (Inl e, snd (parse_beacon order p w))"
    unfolding upload_existing.simps by (simp add: upload_beacon_failed_parse)
next
  assume a: "fst (parse_beacon order p w) = Inl e \<and> prefix BEACON_FILE_PREFIX (name p)"
  let ?w = "log_add w (Info_Detected p)"
  have "fst (parse_beacon order p ?w) = Inl e"
    using a by (simp add: parse_beacon_log_add)
  then have "fst (upload_beacon order remote target token p ?w) = Inl e"
    by (simp add: upload_beacon_failed_parse)
  then show "fst (on_created order remote target token p w) = Inl e"
    using a by (simp add: on_created_def)
qed

theorem failure_confined_or_propagated_witness:
  "fst (upload_beacon example_order (reject_from 2) ''http://moc'' ''Token t'' example_path
          example_world) = Inr ()
   \<and> Error_MOC \<in> set (logged (snd (upload_beacon example_order (reject_from 2) ''http://moc''
                                      ''Token t'' example_path example_world)))
   \<and> upload_existing example_order (reject_from 2) ''http://moc'' ''Token t''
        [example_path, bad_path] example_world =
      upload_existing example_order (reject_from 2) ''http://moc'' ''Token t'' [bad_path]
        (snd (upload_beacon example_order (reject_from 2) ''http://moc'' ''Token t''
                example_path example_world))
   \<and> fst (on_created example_order (reject_from 2) ''http://moc'' ''Token t'' example_path
            example_world) = Inr ()
   \<and> upload_existing example_order accept_all ''http://moc'' ''Token t''
        [bad_path, example_path] two_file_world = (Inl ValueError, two_file_world)
   \<and> fst (on_created example_order accept_all ''http://moc'' ''Token t'' bad_path
            two_file_world) = Inl ValueError"
proof -
  have n: "2 < length (zero_data example_order)"
    by (simp add: length_zero_data)
  have b: "fst (parse_beacon example_order bad_path two_file_world) = Inl ValueError"
    "snd (parse_beacon example_order bad_path two_file_world) = two_file_world"
    by (simp_all add: parse_beacon_bad_name)
  have pre: "prefix BEACON_FILE_PREFIX (name bad_path)"
    by (simp add: BEACON_FILE_PREFIX_def bad_path_def)
  show ?thesis
    using failure_confined_or_propagated [of example_order example_path example_world
        example_date "zero_data example_order" 2 "reject_from 2"
        "map of_char ''<html>Bad Request</html>''" "''http://moc''" "''Token t''" "[bad_path]"]
      failure_confined_or_propagated [of example_order bad_path two_file_world
        example_date "zero_data example_order" 2 accept_all
        "[]" "''http://moc''" "''Token t''" "[example_path]" ValueError]
      parse_example_fst n reject_from_2 b pre
    by simp
qed

subsection \<open>C7: files of the wrong size\<close>






lemma strptime_example_path:
  "strptime (name example_path) =
     Inr \<lparr>year = 2021, month = 10, day = 19, hour = 14, minute = 30, second = 0, tzinfo = None\<rparr>"
  by (simp add: example_path_def strptime_example_name)









subsection \<open>C1: the order of decoding and uploading\<close>

lemma unpack_loop_counting_beacon:
  "unpack_loop example_order counting_beacon [] = Inr counting_decoded"
  by code_simp

lemma length_counting_beacon: "length counting_beacon = 74"
  by (simp add: counting_beacon_def)

lemma parse_beacon_sized:
  assumes "strptime (name p) = Inr date0" and "files w p = Some contents"
    and "length contents = 74" and "unpack_loop order contents [] = Inr data"
  shows "parse_beacon order p w = (Inr (date0\<lparr>tzinfo := Some UTC\<rparr>, data), w)"
  using assms by (simp add: parse_beacon_def Let_def length_peek)

lemma example_date_tagged:
  "\<lparr>year = 2021, month = 10, day = 19, hour = 14, minute = 30, second = 0,
     tzinfo = None\<rparr>\<lparr>tzinfo := Some UTC\<rparr> = example_date"
  by (simp add: example_date_def)

lemma counting_world_file: "files counting_world example_path = Some counting_beacon"
  by (simp add: counting_world_def world_with_def)

lemma upload_beacon_sources:
  assumes "set_iteration order" and "fst (parse_beacon order p w) = Inr (date, data)"
    and "\<forall>i<length data. \<exists>c. remote (length (posts w) + i) = Response True c"
  shows "map source (posts (snd (upload_beacon order remote target token p w))) =
           map source (posts w) @ map fst order"
proof -
  from assms(2) obtain contents where u: "unpack_loop order contents [] = Inr data"
    by (auto elim: parse_beacon_Inr)
  have "map fst data = map fst order"
    using unpack_loop_keys [OF set_iteration_names [OF assms(1)] _ u] by simp
  moreover have "map source (map (record_request target token date) data) = map fst data"
    by (simp add: record_request_def comp_def)
  ultimately show ?thesis
    using upload_beacon_success(3) [OF assms(2,3), of target token] by simp
qed

lemma example_order_not_declared: "map fst example_order \<noteq> map fst declaration_order"
  by (simp add: example_order_def declaration_order_def)

text \<open>
  Claim C1 asks that the fields be decoded, and the measurements uploaded, in the order in
  which the table is declared. The table is a set, and the loops follow the order in which
  the set yields its entries. Here the code runs on the counting beacon with an
  enumeration of the set that is not the declaration order: the names of the mapping and
  the sources of the requests come in that enumeration's order, its first entry
  \<^verbatim>\<open>battery_temperature3\<close> is unpacked from the bytes 0 to 3 of the file, and \<^verbatim>\<open>sync\<close>, which
  the file holds in its bytes 0 and 1, is unpacked from the bytes 72 and 73.
\<close>

theorem decode_and_upload_follow_set_order:
  "set_iteration example_order
   \<and> map fst example_order \<noteq> map fst declaration_order
   \<and> take 2 counting_beacon = [0, 1]
   \<and> (\<exists>data. fst (parse_beacon example_order example_path counting_world) =
                 Inr (example_date, data)
          \<and> map fst data = map fst example_order
          \<and> hd data = (''battery_temperature3'', [PyFloat32 0x03020100])
          \<and> map_of data ''sync'' = Some [PyInt 18760])
   \<and> map source (posts (snd (upload_beacon example_order accept_all ''http://moc'' ''Token t''
                               example_path counting_world))) = map fst example_order"
proof -
  have p: "parse_beacon example_order example_path counting_world =
      (Inr (example_date, counting_decoded), counting_world)"
    using parse_beacon_sized [OF strptime_example_path counting_world_file
        length_counting_beacon unpack_loop_counting_beacon]
    unfolding example_date_tagged .
  then have f: "fst (parse_beacon example_order example_path counting_world) =
      Inr (example_date, counting_decoded)"
    by simp
  have k: "map fst counting_decoded = map fst example_order"
    by (simp add: example_order_def declaration_order_def counting_decoded_def)
  have v: "hd counting_decoded = (''battery_temperature3'', [PyFloat32 0x03020100])"
    "map_of counting_decoded ''sync'' = Some [PyInt 18760]"
    by (simp_all add: counting_decoded_def)
  have t: "take 2 counting_beacon = [0, 1]"
    unfolding counting_beacon_def by code_simp
  have w: "posts counting_world = []"
    by (simp add: counting_world_def world_with_def)
  have s: "map source (posts (snd (upload_beacon example_order accept_all ''http://moc''
        ''Token t'' example_path counting_world))) = map fst example_order"
    using upload_beacon_sources [OF set_iteration_example_order f accept_all_ok,
        of "''http://moc''" "''Token t''"] w by simp
  have "\<exists>data. fst (parse_beacon example_order example_path counting_world) =
                 Inr (example_date, data)
          \<and> map fst data = map fst example_order
          \<and> hd data = (''battery_temperature3'', [PyFloat32 0x03020100])
          \<and> map_of data ''sync'' = Some [PyInt 18760]"
    by (rule exI [of _ counting_decoded]) (simp add: f k v)
  then show ?thesis
    using set_iteration_example_order example_order_not_declared t s by blast
qed

subsection \<open>C2: the round trip\<close>

lemma length_le_bytes: "length (le_bytes n i) = n"
  by (induction n arbitrary: i) simp_all

lemma le_int_le_bytes: "le_int (le_bytes n i) = i mod 256 ^ n"
proof (induction n arbitrary: i)
  case 0
  then show ?case by simp
next
  case (Suc n)
  have "uint (word_of_int i :: byte) = i mod 256"
    by (simp add: uint_word_of_int take_bit_eq_mod)
  then have "le_int (le_bytes (Suc n) i) = i mod 256 + 256 * (i div 256 mod 256 ^ n)"
    using Suc.IH [of "i div 256"] by simp
  also have "\<dots> = i mod (256 * 256 ^ n)"
    using zmod_zmult2_eq [of "256 ^ n" i 256] by simp
  finally show ?case by simp
qed

lemma length_spec_pack: "well_typed t v \<Longrightarrow> length (spec_pack t v) = calcsize t"
  by (cases v) (auto simp: spec_pack_def well_typed_def length_le_bytes calcsize_def)

lemma unpack_spec_pack: "well_typed t v \<Longrightarrow> unpack t (spec_pack t v) = Inr [v]"
proof (cases v)
  case (PyInt i)
  assume "well_typed t v"
  then have t: "t \<noteq> LE_f" and r: "0 \<le> i" "i < 2 ^ (8 * calcsize t)"
    using PyInt by (simp_all add: well_typed_def)
  have "(256 :: int) ^ calcsize t = 2 ^ (8 * calcsize t)"
    by (simp add: power_mult)
  then have "le_int (le_bytes (calcsize t) i) = i"
    using r by (simp add: le_int_le_bytes)
  then show ?thesis
    using PyInt t by (cases t) (simp_all add: unpack_def spec_pack_def length_le_bytes)
next
  case (PyFloat32 w)
  assume "well_typed t v"
  then have t: "t = LE_f" using PyFloat32 by (simp add: well_typed_def)
  have "uint w < 256 ^ 4"
    using uint_lt2p [of w] by simp
  then have "uint w mod 256 ^ 4 = uint w"
    by (simp only: mod_pos_pos_trivial uint_ge_0)
  then have "(word_of_int (le_int (le_bytes 4 (uint w))) :: 32 word) = w"
    by (simp only: le_int_le_bytes word_of_int_uint)
  then show ?thesis
    using PyFloat32 t by (simp add: unpack_def spec_pack_def length_le_bytes calcsize_def)
qed

lemma unpack_loop_packed:
  "distinct (map fst fs) \<Longrightarrow> fst ` set data \<inter> fst ` set fs = {} \<Longrightarrow>
   \<forall>(rs, t, s) \<in> set fs. s = calcsize t \<and> well_typed t (vals rs) \<Longrightarrow>
   unpack_loop fs (concat (map (\<lambda>(rs, t, s). spec_pack t (vals rs)) fs) @ rest) data =
     Inr (data @ map (\<lambda>(rs, t, s). (rs, [vals rs])) fs)"
proof (induction fs arbitrary: data)
  case Nil
  then show ?case by simp
next
  case (Cons f fs)
  obtain rs t s where f: "f = (rs, t, s)" by (cases f)
  have wt: "well_typed t (vals rs)" and s: "s = calcsize t"
    using Cons.prems(3) f by simp_all
  have l: "length (spec_pack t (vals rs)) = s"
    using wt s by (simp add: length_spec_pack)
  have fresh: "rs \<notin> fst ` set data" using Cons.prems(2) f by auto
  then have si: "setitem data rs [vals rs] = data @ [(rs, [vals rs])]" by (rule setitem_fresh)
  have disj: "fst ` set (data @ [(rs, [vals rs])]) \<inter> fst ` set fs = {}"
    using Cons.prems(1,2) f by auto
  have dist: "distinct (map fst fs)" using Cons.prems(1) by simp
  have rest': "\<forall>(rs, t, s) \<in> set fs. s = calcsize t \<and> well_typed t (vals rs)"
    using Cons.prems(3) by simp
  show ?case
    using Cons.IH [OF dist disj rest'] f l si unpack_spec_pack [OF wt]
    by simp
qed

text \<open>With the table iterated as it is declared, the round trip holds.\<close>

lemma round_trip_in_declaration_order:
  assumes "\<forall>(rs, t, s) \<in> set declaration_order. well_typed t (vals rs)"
  shows "unpack_loop declaration_order (spec_encode vals) [] =
     Inr (map (\<lambda>(rs, t, s). (rs, [vals rs])) declaration_order)"
proof -
  have "\<forall>(rs, t, s) \<in> set declaration_order. s = calcsize t \<and> well_typed t (vals rs)"
    using assms declared_sizes by fastforce
  from unpack_loop_packed [OF distinct_declared_names _ this, of "[]" "[]"]
  show ?thesis by (simp add: spec_encode_def)
qed

lemma known_values_well_typed:
  "\<forall>(rs, t, s) \<in> set declaration_order. well_typed t (known_values rs)"
  by (simp add: declaration_order_def known_values_def well_typed_def calcsize_def)

lemma length_known_buffer: "length (spec_encode known_values) = 74"
  by code_simp

lemma unpack_loop_known_buffer:
  "unpack_loop example_order (spec_encode known_values) [] =
     Inr [(''battery_temperature3'', [PyFloat32 0x01010001]),
          (''battery_temperature2'', [PyFloat32 0x01000000]),
          (''battery_temperature1'', [PyFloat32 0x00010101]),
          (''battery_temperature0'', [PyFloat32 0x003F8000]),
          (''battery_voltage3'', [PyFloat32 0x003F8000]),
          (''battery_voltage2'', [PyFloat32 0x003F8000]),
          (''battery_voltage1'', [PyFloat32 0x003F8000]),
          (''battery_voltage0'', [PyFloat32 0x003F8000]),
          (''algorithm'', [PyInt 0]),
          (''illumination_state'', [PyInt 16256]),
          (''rates2'', [PyFloat32 0x3F800000]),
          (''rates1'', [PyFloat32 0x00010001]),
          (''rates0'', [PyFloat32 0x003F8000]),
          (''quaternions3'', [PyFloat32 0x003F8000]),
          (''quaternions2'', [PyFloat32 0x003F8000]),
          (''quaternions1'', [PyFloat32 0x003F8000]),
          (''quaternions0'', [PyFloat32 0x003F8000]),
          (''custom_data3'', [PyInt 0]),
          (''custom_data2'', [PyInt 128]),
          (''custom_data1'', [PyInt 63]),
          (''custom_data0'', [PyInt 0]),
          (''system_time'', [PyInt 4161536]),
          (''host_id'', [PyInt 0]),
          (''sync'', [PyInt 16256])]"
  by code_simp

lemma known_world_file: "files known_world example_path = Some (spec_encode known_values)"
  by (simp add: known_world_def world_with_def)

text \<open>
  Claim C2 asks that a buffer encoded from known values decode to these values. Here the
  buffer is encoded, as the table is declared, from the value 1 for every integer field
  and the float 1.0 for every float field, and decoded with an enumeration of the set that
  is not the declaration order: \<^verbatim>\<open>sync\<close> comes back as 16256 and \<^verbatim>\<open>battery_temperature3\<close> as
  the bit pattern 01010001.
\<close>

theorem round_trip_fails_in_set_order:
  "set_iteration example_order
   \<and> length (spec_encode known_values) = 74
   \<and> known_values ''sync'' = PyInt 1
   \<and> known_values ''battery_temperature3'' = PyFloat32 0x3F800000
   \<and> (\<exists>data. fst (parse_beacon example_order example_path known_world) =
                 Inr (example_date, data)
          \<and> map_of data ''sync'' = Some [PyInt 16256]
          \<and> map_of data ''battery_temperature3'' = Some [PyFloat32 0x01010001])"
proof -
  have p: "\<exists>data. fst (parse_beacon example_order example_path known_world) =
                 Inr (example_date, data)
          \<and> map_of data ''sync'' = Some [PyInt 16256]
          \<and> map_of data ''battery_temperature3'' = Some [PyFloat32 0x01010001]"
    using parse_beacon_sized [OF strptime_example_path known_world_file
        length_known_buffer unpack_loop_known_buffer]
    unfolding example_date_tagged by simp
  have k: "known_values ''sync'' = PyInt 1"
    "known_values ''battery_temperature3'' = PyFloat32 0x3F800000"
    by (simp_all add: known_values_def declaration_order_def)
  show ?thesis
    using set_iteration_example_order length_known_buffer k p by blast
qed

subsection \<open>C5: file names and \<^verbatim>\<open>strptime\<close>\<close>


















































end
